theory Spec2Isabelle
  imports Complex_Main
begin

section \<open>The Metropolis sweep of \<open>montecarlo.py\<close>\<close>

text \<open>
  The class \<open>MonteCarlo\<close> holds a two-dimensional numpy array of spins and four
  physical parameters. Its methods are embedded below, one definition per
  method, with the instance passed in and returned where the method mutates it.

  Numbers: the entries of the array, \<open>J\<close> and \<open>epsilon\<close> are numpy or Python
  integers and floats. Their arithmetic is embedded over exact reals: the
  rounding of doubles and the wrap-around of \<open>int64\<close> are not represented, so a
  value computed here is the value the source computes wherever the source's
  arithmetic is exact (as it is for spins \<open>+1\<close> and \<open>-1\<close> with small integer
  parameters). \<open>k_B\<close>, \<open>T\<close> and the argument of \<open>flip_decider\<close> keep what decides
  the behaviour of a division by zero: whether the number is a Python number or
  a numpy scalar, whether it is an integer or a float, and the sign of a float
  zero.
\<close>

subsection \<open>Failures\<close>

text \<open>
  \<open>sweep\<close> and \<open>magnetization_Ns\<close> raise a plain \<open>Exception\<close> with a message;
  the two constructors below stand for the two messages. \<open>IndexError\<close> is what
  numpy raises for an index outside the array, \<open>ZeroDivisionError\<close> what Python
  raises when it divides one Python number by another that is zero.
\<close>

datatype error =
    IndexError
  | ZeroDivisionError
  | InvalidBoundaryCondition  \<comment> \<open>\<open>`BC` can get values of `OBC` or `PBC`.\<close>\<close>
  | InvalidSweepCount         \<comment> \<open>\<open>'n' should be a positive integer larger than 0.\<close>\<close>

subsection \<open>Two-dimensional arrays\<close>

text \<open>
  An \<open>ndarray\<close> of two dimensions: its shape and its entries in row-major order.
\<close>

record ndarray =
  shape :: "nat \<times> nat"
  data :: "real list"

definition wf_ndarray :: "ndarray \<Rightarrow> bool" where
  "wf_ndarray a \<longleftrightarrow> length (data a) = fst (shape a) * snd (shape a)"

text \<open>
  One axis of \<open>a[i, j]\<close>: an index from \<open>-n\<close> to \<open>n - 1\<close> is accepted, a negative
  one counts from the end, anything else raises.
\<close>

definition norm_index :: "nat \<Rightarrow> int \<Rightarrow> error + nat" where
  "norm_index n i =
     (if 0 \<le> i \<and> i < int n then Inr (nat i)
      else if - int n \<le> i \<and> i < 0 then Inr (nat (int n + i))
      else Inl IndexError)"

definition flat_index :: "ndarray \<Rightarrow> int \<times> int \<Rightarrow> error + nat" where
  "flat_index a ij =
     (case norm_index (fst (shape a)) (fst ij) of
        Inl e \<Rightarrow> Inl e
      | Inr r \<Rightarrow>
          (case norm_index (snd (shape a)) (snd ij) of
             Inl e \<Rightarrow> Inl e
           | Inr c \<Rightarrow> Inr (r * snd (shape a) + c)))"

text \<open>\<open>a[i, j]\<close>\<close>

definition getitem :: "ndarray \<Rightarrow> int \<times> int \<Rightarrow> error + real" where
  "getitem a ij =
     (case flat_index a ij of Inl e \<Rightarrow> Inl e | Inr p \<Rightarrow> Inr (data a ! p))"

text \<open>\<open>a[i, j] *= k\<close>, in place\<close>

definition imul_item :: "ndarray \<Rightarrow> int \<times> int \<Rightarrow> real \<Rightarrow> error + ndarray" where
  "imul_item a ij k =
     (case flat_index a ij of
        Inl e \<Rightarrow> Inl e
      | Inr p \<Rightarrow> Inr (a\<lparr>data := (data a)[p := data a ! p * k]\<rparr>))"

subsection \<open>Python numbers and numpy scalars\<close>

text \<open>
  A finite double is its value, or the negative zero; \<open>Val 0\<close> is the positive
  zero. A number is a Python \<open>int\<close>, a Python \<open>float\<close>, a numpy \<open>int64\<close> scalar
  or a numpy \<open>float64\<close> scalar. Infinities and \<open>nan\<close> are not values of \<open>k_B\<close>,
  \<open>T\<close> or a flip energy here.
\<close>

datatype fval = Val real | NegZero

datatype number = PyInt int | PyFloat fval | NpInt int | NpFloat fval

fun fvalue :: "fval \<Rightarrow> real" where
  "fvalue (Val x) = x"
| "fvalue NegZero = 0"

fun num_val :: "number \<Rightarrow> real" where
  "num_val (PyInt a) = of_int a"
| "num_val (PyFloat f) = fvalue f"
| "num_val (NpInt a) = of_int a"
| "num_val (NpFloat f) = fvalue f"

fun is_np :: "number \<Rightarrow> bool" where
  "is_np (PyInt a) = False"
| "is_np (PyFloat f) = False"
| "is_np (NpInt a) = True"
| "is_np (NpFloat f) = True"

fun is_float :: "number \<Rightarrow> bool" where
  "is_float (PyInt a) = False"
| "is_float (PyFloat f) = True"
| "is_float (NpInt a) = False"
| "is_float (NpFloat f) = True"

text \<open>
  The sign bit of the number as a double: set on a negative value and on the
  negative zero. An integer zero converts to the positive zero.
\<close>

fun fsign :: "fval \<Rightarrow> bool" where
  "fsign (Val x) = (x < 0)"
| "fsign NegZero = True"

fun sign_bit :: "number \<Rightarrow> bool" where
  "sign_bit (PyInt a) = (a < 0)"
| "sign_bit (PyFloat f) = fsign f"
| "sign_bit (NpInt a) = (a < 0)"
| "sign_bit (NpFloat f) = fsign f"

text \<open>
  \<open>a * b\<close>. Two Python integers give their exact product. With a numpy
  integer and no float, the product is taken in \<open>int64\<close> and wraps around (a
  Python integer operand is one that fits in \<open>int64\<close>). Otherwise the product is
  that of two doubles: it is zero when the exact product is at most half the
  smallest positive double, \<open>2^-1075\<close>, in absolute value, and a zero takes its
  sign from the two sign bits; a product that is not zero is the exact one.
  The result is a numpy scalar as soon as one operand is one.
\<close>

definition wrap64 :: "int \<Rightarrow> int" where
  "wrap64 k = (k + 2 ^ 63) mod 2 ^ 64 - 2 ^ 63"

definition fmul :: "number \<Rightarrow> number \<Rightarrow> fval" where
  "fmul a b =
     (if \<bar>num_val a * num_val b\<bar> \<le> 1 / 2 ^ 1075 then
        (if sign_bit a \<noteq> sign_bit b then NegZero else Val 0)
      else Val (num_val a * num_val b))"

fun number_mul :: "number \<Rightarrow> number \<Rightarrow> number" where
  "number_mul (PyInt a) (PyInt b) = PyInt (a * b)"
| "number_mul (PyInt a) (NpInt b) = NpInt (wrap64 (a * b))"
| "number_mul (NpInt a) (PyInt b) = NpInt (wrap64 (a * b))"
| "number_mul (NpInt a) (NpInt b) = NpInt (wrap64 (a * b))"
| "number_mul a b =
     (if is_np a \<or> is_np b then NpFloat (fmul a b) else PyFloat (fmul a b))"

text \<open>\<open>-a\<close>\<close>

fun fneg :: "fval \<Rightarrow> fval" where
  "fneg (Val x) = (if x = 0 then NegZero else Val (- x))"
| "fneg NegZero = Val 0"

fun number_neg :: "number \<Rightarrow> number" where
  "number_neg (PyInt a) = PyInt (- a)"
| "number_neg (PyFloat f) = PyFloat (fneg f)"
| "number_neg (NpInt a) = NpInt (- a)"
| "number_neg (NpFloat f) = NpFloat (fneg f)"

text \<open>
  The result of a division, of \<open>np.exp\<close> and the right-hand side of \<open><=\<close>: a
  finite value, an infinity or \<open>nan\<close>.
\<close>

datatype npfloat = Finite real | PosInf | NegInf | NaN

text \<open>
  numpy's \<open>a / b\<close> (with its default error state it warns and returns a value):
  at a zero divisor \<open>nan\<close> for a zero dividend, otherwise the infinity whose sign
  is the product of the two sign bits.
\<close>

definition np_true_divide :: "number \<Rightarrow> number \<Rightarrow> npfloat" where
  "np_true_divide a b =
     (if num_val b \<noteq> 0 then Finite (num_val a / num_val b)
      else if num_val a = 0 then NaN
      else if sign_bit a = sign_bit b then PosInf
      else NegInf)"

text \<open>
  \<open>a / b\<close> as Python dispatches it: between two Python numbers it is Python's
  division, which raises at a zero divisor of either sign; as soon as one
  operand is a numpy scalar it is numpy's.
\<close>

definition true_divide :: "number \<Rightarrow> number \<Rightarrow> error + npfloat" where
  "true_divide a b =
     (if \<not> is_np a \<and> \<not> is_np b then
        (if num_val b = 0 then Inl ZeroDivisionError
         else Inr (Finite (num_val a / num_val b)))
      else Inr (np_true_divide a b))"

subsection \<open>The instance\<close>

text \<open>
  \<open>neighbor_spin\<close> is the array of the four neighbours, in the order left,
  right, up, down. \<open>J\<close> is a number or an array of four numbers, multiplied
  entry by entry with \<open>neighbor_spin\<close>.
\<close>

type_synonym vec4 = "real \<times> real \<times> real \<times> real"

datatype coupling = JScalar real | JArray vec4

record MonteCarlo =
  lattice :: ndarray
  dimen :: "nat \<times> nat"
  J :: coupling
  epsilon :: real
  k_B :: number
  T :: number

text \<open>\<open>__init__\<close>, with its defaults written by the caller\<close>

definition init :: "ndarray \<Rightarrow> coupling \<Rightarrow> real \<Rightarrow> number \<Rightarrow> number \<Rightarrow> MonteCarlo" where
  "init lat j eps kb t =
     \<lparr>lattice = lat, dimen = shape lat, J = j, epsilon = eps, k_B = kb, T = t\<rparr>"

definition wf_MonteCarlo :: "MonteCarlo \<Rightarrow> bool" where
  "wf_MonteCarlo mc \<longleftrightarrow> wf_ndarray (lattice mc) \<and> dimen mc = shape (lattice mc)"

subsection \<open>\<open>summary\<close>\<close>

definition summary :: "MonteCarlo \<Rightarrow> nat \<times> nat \<times> real" where
  "summary mc =
     (length (filter (\<lambda>x. 0 < x) (data (lattice mc))),
      length (filter (\<lambda>x. x < 0) (data (lattice mc))),
      sum_list (data (lattice mc)))"

subsection \<open>\<open>E_flip\<close>\<close>

text \<open>
  \<open>self.J * neighbor_spin\<close> and \<open>.sum()\<close>. The products and sums are those of
  exact arithmetic (see the note on numbers at the top): what is computed here
  is the source's value when no product or sum of the source rounds or wraps.
\<close>

fun J_times :: "coupling \<Rightarrow> vec4 \<Rightarrow> vec4" where
  "J_times (JScalar j) (l, r, u, d) = (j * l, j * r, j * u, j * d)"
| "J_times (JArray (jl, jr, ju, jd)) (l, r, u, d) = (jl * l, jr * r, ju * u, jd * d)"

fun sum4 :: "vec4 \<Rightarrow> real" where
  "sum4 (a, b, c, d) = a + b + c + d"

definition E_flip :: "MonteCarlo \<Rightarrow> int \<times> int \<Rightarrow> real \<Rightarrow> vec4 \<Rightarrow> real" where
  "E_flip mc coord site_spin neighbor_spin =
     - 2 * (site_spin * sum4 (J_times (J mc) neighbor_spin) + epsilon mc * site_spin)"

subsection \<open>\<open>flip_decider\<close>\<close>

text \<open>
  The process-wide generator behind \<open>np.random.ranf()\<close>: the sequence of
  samples it will return, and how many were taken.
\<close>

record rng =
  draws :: "nat \<Rightarrow> real"
  used :: nat

definition ranf :: "rng \<Rightarrow> real \<times> rng" where
  "ranf g = (draws g (used g), g\<lparr>used := Suc (used g)\<rparr>)"

text \<open>\<open>np.exp\<close>, exact on a finite argument\<close>

fun np_exp :: "npfloat \<Rightarrow> npfloat" where
  "np_exp (Finite x) = Finite (exp x)"
| "np_exp PosInf = PosInf"
| "np_exp NegInf = Finite 0"
| "np_exp NaN = NaN"

text \<open>\<open>u <= v\<close> for a sample \<open>u\<close>: false against \<open>nan\<close>\<close>

fun np_le :: "real \<Rightarrow> npfloat \<Rightarrow> bool" where
  "np_le u (Finite x) = (u \<le> x)"
| "np_le u PosInf = True"
| "np_le u NegInf = False"
| "np_le u NaN = False"

text \<open>
  The left operand of \<open><=\<close> is evaluated first: the sample is taken before
  the division can raise.
\<close>

definition flip_decider :: "MonteCarlo \<Rightarrow> number \<Rightarrow> rng \<Rightarrow> (error + bool) \<times> rng" where
  "flip_decider mc E g =
     (if num_val E < 0 then (Inr True, g)
      else
        (case ranf g of
           (u, g') \<Rightarrow>
             (case true_divide (number_neg E) (number_mul (k_B mc) (T mc)) of
                Inl e \<Rightarrow> (Inl e, g')
              | Inr q \<Rightarrow>
                  if np_le u (np_exp q) then (Inr True, g') else (Inr False, g'))))"

subsection \<open>\<open>sweep\<close>\<close>

text \<open>
  The state that a method call can change: the instance and the generator.
  A call returns the failure it raised, if any, and the state it left behind
  (the instance is mutated in place, so what was written before a failure stays).
\<close>

type_synonym state = "MonteCarlo \<times> rng"

datatype boundary = OBC | PBC

text \<open>
  The four appends to \<open>spin_neighbor\<close>. The two branches of \<open>sweep\<close> differ
  only here: under \<open>OBC\<close> every direction is guarded, under \<open>PBC\<close> left and up
  index with \<open>n_j-1\<close> and \<open>n_i-1\<close> unguarded, right and down are guarded.
\<close>

definition left_neighbor :: "boundary \<Rightarrow> MonteCarlo \<Rightarrow> int \<Rightarrow> int \<Rightarrow> error + real" where
  "left_neighbor bc mc n_i n_j =
     (case bc of
        OBC \<Rightarrow> if n_j = 0 then Inr 0 else getitem (lattice mc) (n_i, n_j - 1)
      | PBC \<Rightarrow> getitem (lattice mc) (n_i, n_j - 1))"

definition right_neighbor :: "boundary \<Rightarrow> MonteCarlo \<Rightarrow> int \<Rightarrow> int \<Rightarrow> error + real" where
  "right_neighbor bc mc n_i n_j =
     (case bc of
        OBC \<Rightarrow> if n_j = int (snd (dimen mc)) - 1 then Inr 0
               else getitem (lattice mc) (n_i, n_j + 1)
      | PBC \<Rightarrow> if n_j = int (snd (dimen mc)) - 1 then getitem (lattice mc) (n_i, 0)
               else getitem (lattice mc) (n_i, n_j + 1))"

definition up_neighbor :: "boundary \<Rightarrow> MonteCarlo \<Rightarrow> int \<Rightarrow> int \<Rightarrow> error + real" where
  "up_neighbor bc mc n_i n_j =
     (case bc of
        OBC \<Rightarrow> if n_i = 0 then Inr 0 else getitem (lattice mc) (n_i - 1, n_j)
      | PBC \<Rightarrow> getitem (lattice mc) (n_i - 1, n_j))"

definition down_neighbor :: "boundary \<Rightarrow> MonteCarlo \<Rightarrow> int \<Rightarrow> int \<Rightarrow> error + real" where
  "down_neighbor bc mc n_i n_j =
     (case bc of
        OBC \<Rightarrow> if n_i = int (fst (dimen mc)) - 1 then Inr 0
               else getitem (lattice mc) (n_i + 1, n_j)
      | PBC \<Rightarrow> if n_i = int (fst (dimen mc)) - 1 then getitem (lattice mc) (0, n_j)
               else getitem (lattice mc) (n_i + 1, n_j))"

definition spin_neighbor :: "boundary \<Rightarrow> MonteCarlo \<Rightarrow> int \<Rightarrow> int \<Rightarrow> error + vec4" where
  "spin_neighbor bc mc n_i n_j =
     (case left_neighbor bc mc n_i n_j of Inl e \<Rightarrow> Inl e | Inr l \<Rightarrow>
      case right_neighbor bc mc n_i n_j of Inl e \<Rightarrow> Inl e | Inr r \<Rightarrow>
      case up_neighbor bc mc n_i n_j of Inl e \<Rightarrow> Inl e | Inr u \<Rightarrow>
      case down_neighbor bc mc n_i n_j of Inl e \<Rightarrow> Inl e | Inr d \<Rightarrow>
      Inr (l, r, u, d))"

text \<open>
  The body of the inner loop, for the site \<open>(n_i, n_j)\<close>. The flip energy is
  computed from an entry of the array, so what \<open>flip_decider\<close> receives is a
  numpy scalar (an integer or a float one: the decider does not tell them
  apart).
\<close>

definition np_scalar :: "real \<Rightarrow> number" where
  "np_scalar x = NpFloat (Val x)"

definition visit_site :: "boundary \<Rightarrow> int \<Rightarrow> int \<Rightarrow> state \<Rightarrow> error option \<times> state" where
  "visit_site bc n_i n_j s =
     (case s of (mc, g) \<Rightarrow>
      case getitem (lattice mc) (n_i, n_j) of Inl e \<Rightarrow> (Some e, s) | Inr spin_ij \<Rightarrow>
      case spin_neighbor bc mc n_i n_j of Inl e \<Rightarrow> (Some e, s) | Inr nb \<Rightarrow>
      case flip_decider mc (np_scalar (E_flip mc (n_i, n_j) spin_ij nb)) g of
        (Inl e, g') \<Rightarrow> (Some e, (mc, g'))
      | (Inr flip, g') \<Rightarrow>
          if flip then
            (case imul_item (lattice mc) (n_i, n_j) (- 1) of
               Inl e \<Rightarrow> (Some e, (mc, g'))
             | Inr a \<Rightarrow> (None, (mc\<lparr>lattice := a\<rparr>, g')))
          else (None, (mc, g')))"

text \<open>\<open>for n_j in range(self.dimen[1])\<close>, over the values still to visit\<close>

fun sweep_row :: "boundary \<Rightarrow> int \<Rightarrow> int list \<Rightarrow> state \<Rightarrow> error option \<times> state" where
  "sweep_row bc n_i [] s = (None, s)"
| "sweep_row bc n_i (n_j # js) s =
     (case visit_site bc n_i n_j s of
        (Some e, s') \<Rightarrow> (Some e, s')
      | (None, s') \<Rightarrow> sweep_row bc n_i js s')"

text \<open>\<open>range(n)\<close>\<close>

definition range_py :: "nat \<Rightarrow> int list" where
  "range_py n = map int [0..<n]"

text \<open>\<open>for n_i in range(self.dimen[0])\<close>, over the values still to visit\<close>

fun sweep_rows :: "boundary \<Rightarrow> int list \<Rightarrow> state \<Rightarrow> error option \<times> state" where
  "sweep_rows bc [] s = (None, s)"
| "sweep_rows bc (n_i # is) s =
     (case sweep_row bc n_i (range_py (snd (dimen (fst s)))) s of
        (Some e, s') \<Rightarrow> (Some e, s')
      | (None, s') \<Rightarrow> sweep_rows bc is s')"

definition sweep :: "string \<Rightarrow> state \<Rightarrow> error option \<times> state" where
  "sweep BC s =
     (if BC = ''OBC'' then sweep_rows OBC (range_py (fst (dimen (fst s)))) s
      else if BC = ''PBC'' then sweep_rows PBC (range_py (fst (dimen (fst s)))) s
      else (Some InvalidBoundaryCondition, s))"

subsection \<open>\<open>magnetization_Ns\<close>\<close>

text \<open>
  \<open>for _ in range(n)\<close> with the accumulator \<open>M\<close>: the count is the number of
  rounds still to run.
\<close>

fun magnetization_loop :: "nat \<Rightarrow> string \<Rightarrow> real \<Rightarrow> state \<Rightarrow> (error + real) \<times> state" where
  "magnetization_loop 0 BC M s = (Inr M, s)"
| "magnetization_loop (Suc k) BC M s =
     (case sweep BC s of
        (Some e, s') \<Rightarrow> (Inl e, s')
      | (None, s') \<Rightarrow>
          magnetization_loop k BC (M + snd (snd (summary (fst s')))) s')"

text \<open>
  \<open>n\<close> is an integer, on which \<open>int(n)\<close> is the identity. \<open>M / n\<close> is Python's
  true division; \<open>n\<close> is at least 1 there.
\<close>

definition magnetization_Ns :: "number \<Rightarrow> int \<Rightarrow> string \<Rightarrow> state \<Rightarrow> (error + real) \<times> state" where
  "magnetization_Ns t n BC s =
     (case s of (mc, g) \<Rightarrow>
      let s1 = (mc\<lparr>T := t\<rparr>, g) in
      if n < 1 then (Inl InvalidSweepCount, s1)
      else
        (case magnetization_loop (nat n) BC 0 s1 of
           (Inl e, s') \<Rightarrow> (Inl e, s')
         | (Inr M, s') \<Rightarrow> (Inr (M / of_int n), s')))"

subsection \<open>Notions used in the statements\<close>

text \<open>
  What a sweep may change: \<open>flipped_from mc mc'\<close> says that \<open>mc'\<close> has the
  parameters, the dimensions and the shape of \<open>mc\<close>, and that every entry of
  its array has the absolute value it has in \<open>mc\<close>.
\<close>

definition flipped_from :: "MonteCarlo \<Rightarrow> MonteCarlo \<Rightarrow> bool" where
  "flipped_from mc mc' \<longleftrightarrow>
     dimen mc' = dimen mc \<and> J mc' = J mc \<and> epsilon mc' = epsilon mc \<and>
     k_B mc' = k_B mc \<and> T mc' = T mc \<and>
     shape (lattice mc') = shape (lattice mc) \<and>
     map abs (data (lattice mc')) = map abs (data (lattice mc))"

text \<open>The indices that numpy accepts on an axis of length \<open>n\<close>.\<close>

definition valid_index :: "nat \<Rightarrow> int \<Rightarrow> bool" where
  "valid_index n i \<longleftrightarrow> - int n \<le> i \<and> i < int n"


text \<open>The total spin of a state, as \<open>summary\<close> reports it.\<close>

definition total_spin :: "state \<Rightarrow> real" where
  "total_spin s = snd (snd (summary (fst s)))"

text \<open>
  The states after each of \<open>k\<close> sweeps run one after the other from \<open>s\<close>: the
  first entry is the state after the first sweep, the last one the state after
  the \<open>k\<close>-th.
\<close>

fun sweep_trace :: "nat \<Rightarrow> string \<Rightarrow> state \<Rightarrow> state list" where
  "sweep_trace 0 BC s = []"
| "sweep_trace (Suc k) BC s = snd (sweep BC s) # sweep_trace k BC (snd (sweep BC s))"



text \<open>A generator that returns the same sample at every draw, and a lattice of ones.\<close>

definition const_draws :: "real \<Rightarrow> nat \<Rightarrow> real" where
  "const_draws u k = u"

definition ones :: "nat \<Rightarrow> nat \<Rightarrow> ndarray" where
  "ones r c = \<lparr>shape = (r, c), data = replicate (r * c) 1\<rparr>"

section \<open>Properties\<close>

subsection \<open>Indexing\<close>

lemma wrap_mod: "- int n \<le> i \<Longrightarrow> i < 0 \<Longrightarrow> i mod int n = int n + i"
proof -
  assume a: "- int n \<le> i" and b: "i < 0"
  have "i mod int n = (i + int n) mod int n" by simp
  also have "\<dots> = i + int n" using a b by (intro mod_pos_pos_trivial) simp_all
  finally show ?thesis by simp
qed

lemma norm_index_mod:
  "norm_index n i = (if valid_index n i then Inr (nat (i mod int n)) else Inl IndexError)"
  by (auto simp: norm_index_def valid_index_def wrap_mod)

lemma norm_index_less: "norm_index n i = Inr r \<Longrightarrow> r < n"
  by (auto simp: norm_index_def split: if_splits)

lemma flat_less: "r < n \<Longrightarrow> c < m \<Longrightarrow> r * m + c < n * (m::nat)"
proof -
  assume r: "r < n" and c: "c < m"
  have "r * m + c < r * m + m" using c by simp
  also have "\<dots> = Suc r * m" by simp
  also have "\<dots> \<le> n * m" using r by (intro mult_le_mono1) simp
  finally show ?thesis .
qed

lemma flat_index_less:
  "flat_index a ij = Inr p \<Longrightarrow> p < fst (shape a) * snd (shape a)"
  by (auto simp: flat_index_def split: sum.splits dest!: norm_index_less intro: flat_less)

lemma flat_index_valid:
  "valid_index (fst (shape a)) i \<Longrightarrow> valid_index (snd (shape a)) j \<Longrightarrow>
   flat_index a (i, j) =
     Inr (nat (i mod int (fst (shape a))) * snd (shape a) + nat (j mod int (snd (shape a))))"
  by (simp add: flat_index_def norm_index_mod)

lemma getitem_valid:
  "valid_index (fst (shape a)) i \<Longrightarrow> valid_index (snd (shape a)) j \<Longrightarrow>
   getitem a (i, j) =
     Inr (data a ! (nat (i mod int (fst (shape a))) * snd (shape a) + nat (j mod int (snd (shape a)))))"
  by (simp add: getitem_def flat_index_valid)

lemma map_abs_negate: "map abs (xs[p := - (xs ! p)]) = map abs (xs :: real list)"
proof (cases "p < length xs")
  case True
  then show ?thesis by (auto simp: list_eq_iff_nth_eq nth_list_update)
next
  case False
  then show ?thesis by (simp add: list_update_beyond)
qed

lemma imul_item_frame:
  "imul_item a ij (- 1) = Inr a' \<Longrightarrow>
   shape a' = shape a \<and> map abs (data a') = map abs (data a)"
  by (auto simp: imul_item_def map_abs_negate split: sum.splits)

lemma imul_item_ok:
  "getitem a ij = Inr v \<Longrightarrow> \<exists>a'. imul_item a ij k = Inr a'"
  by (auto simp: imul_item_def getitem_def split: sum.splits)

lemma flipped_from_refl: "flipped_from mc mc"
  by (simp add: flipped_from_def)

lemma flipped_from_trans: "flipped_from a b \<Longrightarrow> flipped_from b c \<Longrightarrow> flipped_from a c"
  by (simp add: flipped_from_def)

lemma flip_decider_rng:
  "flip_decider mc E g = (b, g') \<Longrightarrow> draws g' = draws g \<and> used g \<le> used g'"
  by (auto simp: flip_decider_def ranf_def split: if_splits prod.splits sum.splits)

lemma is_np_number_neg: "is_np (number_neg a) = is_np a"
  by (cases a) simp_all

lemma num_val_number_neg: "num_val (number_neg a) = - num_val a"
proof (cases a)
  case (PyFloat f)
  then show ?thesis by (cases f) simp_all
next
  case (NpFloat f)
  then show ?thesis by (cases f) simp_all
qed simp_all

lemma wrap64_0: "wrap64 0 = 0"
  by (simp add: wrap64_def)

lemma zero_product:
  "num_val a * num_val b = 0 \<Longrightarrow> num_val (number_mul a b) = 0"
  by (cases a; cases b) (auto simp: fmul_def wrap64_0)

lemma is_np_number_mul: "is_np (number_mul a b) = (is_np a \<or> is_np b)"
  by (cases a; cases b) simp_all

lemma sign_bit_zero_product:
  "num_val a * num_val b = 0 \<Longrightarrow>
   sign_bit (number_mul a b) = ((is_float a \<or> is_float b) \<and> sign_bit a \<noteq> sign_bit b)"
  by (cases a; cases b) (auto simp: fmul_def wrap64_0)


lemma flip_decider_np_ok:
  "is_np E \<Longrightarrow> \<exists>b. fst (flip_decider mc E g) = Inr b"
  by (auto simp: flip_decider_def ranf_def true_divide_def is_np_number_neg)

lemma visit_site_frame:
  assumes "visit_site bc n_i n_j (mc, g) = (e, (mc', g'))"
  shows "flipped_from mc mc' \<and> draws g' = draws g \<and> used g \<le> used g'"
  using assms
  by (auto simp: visit_site_def flipped_from_def split: sum.splits prod.splits if_splits
      dest!: flip_decider_rng imul_item_frame)


lemma left_neighbor_ok:
  assumes "dimen mc = shape (lattice mc)"
    and "0 \<le> n_i" "n_i < int (fst (dimen mc))" "0 \<le> n_j" "n_j < int (snd (dimen mc))"
  shows "\<exists>v. left_neighbor bc mc n_i n_j = Inr v"
  using assms by (cases bc) (simp_all add: left_neighbor_def getitem_valid valid_index_def)

lemma right_neighbor_ok:
  assumes "dimen mc = shape (lattice mc)"
    and "0 \<le> n_i" "n_i < int (fst (dimen mc))" "0 \<le> n_j" "n_j < int (snd (dimen mc))"
  shows "\<exists>v. right_neighbor bc mc n_i n_j = Inr v"
  using assms by (cases bc) (simp_all add: right_neighbor_def getitem_valid valid_index_def)

lemma up_neighbor_ok:
  assumes "dimen mc = shape (lattice mc)"
    and "0 \<le> n_i" "n_i < int (fst (dimen mc))" "0 \<le> n_j" "n_j < int (snd (dimen mc))"
  shows "\<exists>v. up_neighbor bc mc n_i n_j = Inr v"
  using assms by (cases bc) (simp_all add: up_neighbor_def getitem_valid valid_index_def)

lemma down_neighbor_ok:
  assumes "dimen mc = shape (lattice mc)"
    and "0 \<le> n_i" "n_i < int (fst (dimen mc))" "0 \<le> n_j" "n_j < int (snd (dimen mc))"
  shows "\<exists>v. down_neighbor bc mc n_i n_j = Inr v"
  using assms by (cases bc) (simp_all add: down_neighbor_def getitem_valid valid_index_def)

lemma spin_neighbor_ok:
  assumes "dimen mc = shape (lattice mc)"
    and "0 \<le> n_i" "n_i < int (fst (dimen mc))" "0 \<le> n_j" "n_j < int (snd (dimen mc))"
  shows "\<exists>nb. spin_neighbor bc mc n_i n_j = Inr nb"
proof -
  obtain l r u d where "left_neighbor bc mc n_i n_j = Inr l" "right_neighbor bc mc n_i n_j = Inr r"
    "up_neighbor bc mc n_i n_j = Inr u" "down_neighbor bc mc n_i n_j = Inr d"
    using left_neighbor_ok [OF assms] right_neighbor_ok [OF assms]
      up_neighbor_ok [OF assms] down_neighbor_ok [OF assms] by blast
  then show ?thesis by (simp add: spin_neighbor_def)
qed

lemma visit_site_ok:
  assumes "dimen mc = shape (lattice mc)"
    and "0 \<le> n_i" "n_i < int (fst (dimen mc))" "0 \<le> n_j" "n_j < int (snd (dimen mc))"
  shows "fst (visit_site bc n_i n_j (mc, g)) = None"
proof -
  obtain nb where nb: "spin_neighbor bc mc n_i n_j = Inr nb"
    using spin_neighbor_ok [OF assms] by blast
  obtain v where v: "getitem (lattice mc) (n_i, n_j) = Inr v"
    using assms by (simp add: getitem_valid valid_index_def)
  obtain a' where a': "imul_item (lattice mc) (n_i, n_j) (- 1) = Inr a'"
    using imul_item_ok [OF v] by blast
  obtain b g' where b: "flip_decider mc (np_scalar (E_flip mc (n_i, n_j) v nb)) g = (Inr b, g')"
    using flip_decider_np_ok [of "np_scalar (E_flip mc (n_i, n_j) v nb)" mc g]
    by (cases "flip_decider mc (np_scalar (E_flip mc (n_i, n_j) v nb)) g")
      (auto simp: np_scalar_def)
  show ?thesis
    by (simp add: visit_site_def nb v a' b)
qed

lemma sweep_row_frame:
  "sweep_row bc n_i js (mc, g) = (e, (mc', g')) \<Longrightarrow>
   flipped_from mc mc' \<and> draws g' = draws g \<and> used g \<le> used g'"
proof (induction js arbitrary: mc g)
  case Nil
  then show ?case by (simp add: flipped_from_refl)
next
  case (Cons n_j js)
  obtain e1 mc1 g1 where v: "visit_site bc n_i n_j (mc, g) = (e1, (mc1, g1))"
    by (metis prod_cases3)
  note f1 = visit_site_frame [OF v]
  show ?case
  proof (cases e1)
    case None
    with Cons.prems v have "sweep_row bc n_i js (mc1, g1) = (e, (mc', g'))" by simp
    from Cons.IH [OF this] f1 show ?thesis
      by (auto intro: flipped_from_trans)
  next
    case (Some x)
    with Cons.prems v f1 show ?thesis by simp
  qed
qed

lemma sweep_row_ok:
  assumes "dimen mc = shape (lattice mc)" "0 \<le> n_i" "n_i < int (fst (dimen mc))"
    and "\<forall>n_j \<in> set js. 0 \<le> n_j \<and> n_j < int (snd (dimen mc))"
  shows "fst (sweep_row bc n_i js (mc, g)) = None"
  using assms
proof (induction js arbitrary: mc g)
  case Nil
  then show ?case by simp
next
  case (Cons n_j js)
  obtain e1 mc1 g1 where v: "visit_site bc n_i n_j (mc, g) = (e1, (mc1, g1))"
    by (metis prod_cases3)
  have e1: "e1 = None"
    using visit_site_ok [of mc n_i n_j bc g] Cons.prems v by simp
  have f1: "flipped_from mc mc1" using visit_site_frame [OF v] by simp
  then have d: "dimen mc1 = dimen mc" "shape (lattice mc1) = shape (lattice mc)"
    by (simp_all add: flipped_from_def)
  have "fst (sweep_row bc n_i js (mc1, g1)) = None"
    using Cons.prems d by (intro Cons.IH) simp_all
  then show ?case using v e1 by simp
qed

lemma range_py_bounds: "n_i \<in> set (range_py n) \<Longrightarrow> 0 \<le> n_i \<and> n_i < int n"
  by (auto simp: range_py_def)

lemma sweep_rows_frame:
  "sweep_rows bc is (mc, g) = (e, (mc', g')) \<Longrightarrow>
   flipped_from mc mc' \<and> draws g' = draws g \<and> used g \<le> used g'"
proof (induction "is" arbitrary: mc g)
  case Nil
  then show ?case by (simp add: flipped_from_refl)
next
  case (Cons n_i "is")
  obtain e1 mc1 g1 where v: "sweep_row bc n_i (range_py (snd (dimen mc))) (mc, g) = (e1, (mc1, g1))"
    by (metis prod_cases3)
  note f1 = sweep_row_frame [OF v]
  show ?case
  proof (cases e1)
    case None
    with Cons.prems v have "sweep_rows bc is (mc1, g1) = (e, (mc', g'))" by simp
    from Cons.IH [OF this] f1 show ?thesis
      by (auto intro: flipped_from_trans)
  next
    case (Some x)
    with Cons.prems v f1 show ?thesis by simp
  qed
qed

lemma sweep_rows_ok:
  assumes "dimen mc = shape (lattice mc)"
    and "\<forall>n_i \<in> set is. 0 \<le> n_i \<and> n_i < int (fst (dimen mc))"
  shows "fst (sweep_rows bc is (mc, g)) = None"
  using assms
proof (induction "is" arbitrary: mc g)
  case Nil
  then show ?case by simp
next
  case (Cons n_i "is")
  obtain e1 mc1 g1 where v: "sweep_row bc n_i (range_py (snd (dimen mc))) (mc, g) = (e1, (mc1, g1))"
    by (metis prod_cases3)
  have "fst (sweep_row bc n_i (range_py (snd (dimen mc))) (mc, g)) = None"
    using Cons.prems by (intro sweep_row_ok) (auto dest: range_py_bounds)
  then have e1: "e1 = None" using v by simp
  have f1: "flipped_from mc mc1" using sweep_row_frame [OF v] by simp
  then have d: "dimen mc1 = dimen mc" "shape (lattice mc1) = shape (lattice mc)"
    by (simp_all add: flipped_from_def)
  have "fst (sweep_rows bc is (mc1, g1)) = None"
    using Cons.prems d by (intro Cons.IH) simp_all
  then show ?case using v e1 by simp
qed

lemma sweep_frame:
  "sweep BC (mc, g) = (e, (mc', g')) \<Longrightarrow>
   flipped_from mc mc' \<and> draws g' = draws g \<and> used g \<le> used g'"
  by (auto simp: sweep_def flipped_from_refl split: if_splits dest: sweep_rows_frame)

lemma sweep_ok:
  assumes "dimen mc = shape (lattice mc)" "BC = ''OBC'' \<or> BC = ''PBC''"
  shows "fst (sweep BC (mc, g)) = None"
  using assms by (auto simp: sweep_def intro!: sweep_rows_ok dest: range_py_bounds)

text \<open>The defining equations, for evaluating a call on concrete arguments.\<close>

lemmas ev = init_def ones_def sweep_def range_py_def upt_rec visit_site_def getitem_def
    flat_index_def norm_index_def spin_neighbor_def left_neighbor_def right_neighbor_def
    up_neighbor_def down_neighbor_def E_flip_def flip_decider_def ranf_def imul_item_def
    np_scalar_def true_divide_def np_true_divide_def fmul_def eval_nat_numeral const_draws_def

subsection \<open>The acceptance rule\<close>




text \<open>
  Claim C7, as stated: when \<open>T = 0\<close> and the flip energy is \<open>0\<close>, the decider
  would evaluate \<open>0 / 0\<close> to \<open>nan\<close>, return false and raise no division-by-zero
  fault. Called with the Python number \<open>0\<close> on an instance with the default
  \<open>k_B = 1\<close> and \<open>T = 0\<close>, it raises \<open>ZeroDivisionError\<close> after taking the sample.
\<close>

theorem flip_decider_zero_temperature_counterexample:
  "flip_decider (init (ones 1 1) (JScalar 1) 0 (PyInt 1) (PyInt 0)) (PyInt 0)
      \<lparr>draws = const_draws (1 / 2), used = 0\<rparr>
     = (Inl ZeroDivisionError, \<lparr>draws = const_draws (1 / 2), used = 1\<rparr>)"
  by (simp add: flip_decider_def ranf_def true_divide_def init_def)

text \<open>
  Claim C7, amended. When \<open>T = 0\<close> and the flip energy is \<open>0\<close>, the decider takes
  one sample. If the energy, \<open>k_B\<close> or \<open>T\<close> is a numpy scalar (the energy that
  \<open>E_flip\<close> returns, and that \<open>sweep\<close> passes, always is), the quotient \<open>0 / 0\<close>
  is \<open>nan\<close>, the comparison with it is false for every sample, the decider
  returns false and nothing is raised. If all three are Python numbers, the
  division raises \<open>ZeroDivisionError\<close>.
\<close>

theorem flip_decider_zero_temperature:
  "(num_val (T mc) = 0 \<and> num_val E = 0 \<and> (is_np E \<or> is_np (k_B mc) \<or> is_np (T mc)) \<longrightarrow>
      true_divide (number_neg E) (number_mul (k_B mc) (T mc)) = Inr NaN
      \<and> flip_decider mc E g = (Inr False, g\<lparr>used := Suc (used g)\<rparr>))
   \<and> (num_val (T mc) = 0 \<and> num_val E = 0
       \<and> \<not> (is_np E \<or> is_np (k_B mc) \<or> is_np (T mc)) \<longrightarrow>
      flip_decider mc E g = (Inl ZeroDivisionError, g\<lparr>used := Suc (used g)\<rparr>))"
  by (auto simp: flip_decider_def ranf_def true_divide_def np_true_divide_def
      zero_product num_val_number_neg is_np_number_neg is_np_number_mul)

theorem flip_decider_zero_temperature_witness:
  "flip_decider (init (ones 1 1) (JScalar 1) 0 (PyInt 1) (PyInt 0)) (NpInt 0)
      \<lparr>draws = const_draws 0, used = 0\<rparr>
     = (Inr False, \<lparr>draws = const_draws 0, used = 1\<rparr>)
   \<and> flip_decider (init (ones 1 1) (JScalar 1) 0 (PyInt 1) (PyFloat NegZero)) (PyFloat (Val 0))
      \<lparr>draws = const_draws 0, used = 0\<rparr>
     = (Inl ZeroDivisionError, \<lparr>draws = const_draws 0, used = 1\<rparr>)"
  using flip_decider_zero_temperature [of "init (ones 1 1) (JScalar 1) 0 (PyInt 1) (PyInt 0)"
      "NpInt 0" "\<lparr>draws = const_draws 0, used = 0\<rparr>"]
    flip_decider_zero_temperature [of "init (ones 1 1) (JScalar 1) 0 (PyInt 1) (PyFloat NegZero)"
      "PyFloat (Val 0)" "\<lparr>draws = const_draws 0, used = 0\<rparr>"]
  by (simp add: init_def)

subsection \<open>An unrecognised boundary condition\<close>

text \<open>
  Claim C4. For every selector other than \<open>OBC\<close> and \<open>PBC\<close>, \<open>sweep\<close> raises the
  boundary-condition failure and leaves the whole state as it was: every entry
  of the array, and the generator, so no site was visited.
\<close>

theorem sweep_invalid_boundary:
  "BC \<noteq> ''OBC'' \<Longrightarrow> BC \<noteq> ''PBC'' \<Longrightarrow> sweep BC s = (Some InvalidBoundaryCondition, s)"
  by (simp add: sweep_def)

theorem sweep_invalid_boundary_witness:
  "sweep ''periodic'' (init (ones 4 4) (JScalar 1) 0 (PyInt 1) (PyInt 0), \<lparr>draws = const_draws (1 / 2), used = 0\<rparr>)
     = (Some InvalidBoundaryCondition,
        (init (ones 4 4) (JScalar 1) 0 (PyInt 1) (PyInt 0), \<lparr>draws = const_draws (1 / 2), used = 0\<rparr>))"
  using sweep_invalid_boundary [of "''periodic''"
      "(init (ones 4 4) (JScalar 1) 0 (PyInt 1) (PyInt 0), \<lparr>draws = const_draws (1 / 2), used = 0\<rparr>)"]
  by simp

subsection \<open>The summary\<close>




subsection \<open>What a sweep changes\<close>

lemma visit_site_writes:
  "lattice (fst (snd (visit_site bc n_i n_j (mc, g)))) = lattice mc
   \<or> Inr (lattice (fst (snd (visit_site bc n_i n_j (mc, g))))) = imul_item (lattice mc) (n_i, n_j) (- 1)"
  by (simp add: visit_site_def split: sum.splits prod.splits)

lemma magnetization_loop_frame:
  "magnetization_loop k BC M (mc, g) = (r, (mc', g')) \<Longrightarrow> flipped_from mc mc'"
proof (induction k arbitrary: M mc g)
  case 0
  then show ?case by (simp add: flipped_from_refl)
next
  case (Suc k)
  obtain e1 mc1 g1 where v: "sweep BC (mc, g) = (e1, (mc1, g1))"
    by (metis prod_cases3)
  have f1: "flipped_from mc mc1" using sweep_frame [OF v] by simp
  show ?case
  proof (cases e1)
    case None
    with Suc.prems v
    have "magnetization_loop k BC (M + snd (snd (summary mc1))) (mc1, g1) = (r, (mc', g'))"
      by simp
    from Suc.IH [OF this] f1 show ?thesis by (rule flipped_from_trans [rotated])
  next
    case (Some x)
    with Suc.prems v f1 show ?thesis by simp
  qed
qed

lemma magnetization_Ns_frame:
  assumes "magnetization_Ns t n BC (mc, g) = (r, (mc', g'))"
  shows "dimen mc' = dimen mc \<and> shape (lattice mc') = shape (lattice mc)
    \<and> map abs (data (lattice mc')) = map abs (data (lattice mc))"
proof (cases "n < 1")
  case True
  with assms show ?thesis by (auto simp: magnetization_Ns_def)
next
  case False
  obtain r1 mc1 g1 where l: "magnetization_loop (nat n) BC 0 (mc\<lparr>T := t\<rparr>, g) = (r1, (mc1, g1))"
    by (metis prod_cases3)
  have "mc' = mc1" using assms l False
    by (auto simp: magnetization_Ns_def split: sum.splits)
  with magnetization_loop_frame [OF l] show ?thesis by (simp add: flipped_from_def)
qed

text \<open>
  Claim C9. A visit to one site leaves the array as it was or multiplies the
  entry of that site by \<open>-1\<close>. A call of \<open>sweep\<close>, with any selector, keeps the
  absolute value of every entry, the shape of the array and \<open>dimen\<close>; so does
  a call of \<open>magnetization_Ns\<close>.
\<close>

theorem sweep_flips_signs_only:
  "(lattice (fst (snd (visit_site bc n_i n_j (mc, g)))) = lattice mc
     \<or> Inr (lattice (fst (snd (visit_site bc n_i n_j (mc, g)))))
         = imul_item (lattice mc) (n_i, n_j) (- 1))
   \<and> map abs (data (lattice (fst (snd (sweep BC (mc, g)))))) = map abs (data (lattice mc))
   \<and> shape (lattice (fst (snd (sweep BC (mc, g))))) = shape (lattice mc)
   \<and> dimen (fst (snd (sweep BC (mc, g)))) = dimen mc
   \<and> map abs (data (lattice (fst (snd (magnetization_Ns t n BC (mc, g))))))
       = map abs (data (lattice mc))
   \<and> shape (lattice (fst (snd (magnetization_Ns t n BC (mc, g))))) = shape (lattice mc)
   \<and> dimen (fst (snd (magnetization_Ns t n BC (mc, g)))) = dimen mc"
proof -
  obtain e mc1 g1 where s: "sweep BC (mc, g) = (e, (mc1, g1))"
    by (metis prod_cases3)
  obtain r mc2 g2 where m: "magnetization_Ns t n BC (mc, g) = (r, (mc2, g2))"
    by (metis prod_cases3)
  from sweep_frame [OF s] magnetization_Ns_frame [OF m] visit_site_writes [of bc n_i n_j mc g]
  show ?thesis by (simp add: s m flipped_from_def)
qed

text \<open>
  Claim C10. \<open>magnetization_Ns\<close> assigns \<open>self.T\<close> before it checks \<open>n\<close>: when it
  raises for \<open>n < 1\<close>, the temperature of the instance is already the argument,
  and the array is as it was.
\<close>

theorem magnetization_Ns_sets_T_first:
  "n < 1 \<Longrightarrow>
   magnetization_Ns t n BC (mc, g) = (Inl InvalidSweepCount, (mc\<lparr>T := t\<rparr>, g))
   \<and> T (fst (snd (magnetization_Ns t n BC (mc, g)))) = t
   \<and> lattice (fst (snd (magnetization_Ns t n BC (mc, g)))) = lattice mc"
  by (simp add: magnetization_Ns_def)

theorem magnetization_Ns_sets_T_first_witness:
  "T (init (ones 2 2) (JScalar 1) 0 (PyInt 1) (PyInt 0)) = PyInt 0
   \<and> fst (magnetization_Ns (PyInt 5) 0 ''PBC''
        (init (ones 2 2) (JScalar 1) 0 (PyInt 1) (PyInt 0), \<lparr>draws = const_draws (1 / 2), used = 0\<rparr>))
       = Inl InvalidSweepCount
   \<and> T (fst (snd (magnetization_Ns (PyInt 5) 0 ''PBC''
        (init (ones 2 2) (JScalar 1) 0 (PyInt 1) (PyInt 0), \<lparr>draws = const_draws (1 / 2), used = 0\<rparr>)))) = PyInt 5"
  using magnetization_Ns_sets_T_first [of 0 "PyInt 5" "''PBC''" "init (ones 2 2) (JScalar 1) 0 (PyInt 1) (PyInt 0)"
      "\<lparr>draws = const_draws (1 / 2), used = 0\<rparr>"]
  by (simp add: init_def)

lemma sweep_keeps_dimen:
  assumes "dimen mc = shape (lattice mc)"
  shows "dimen (fst (snd (sweep BC (mc, g)))) = shape (lattice (fst (snd (sweep BC (mc, g)))))"
proof -
  obtain e mc1 g1 where s: "sweep BC (mc, g) = (e, (mc1, g1))"
    by (metis prod_cases3)
  from sweep_frame [OF s] assms show ?thesis by (simp add: s flipped_from_def)
qed

lemma magnetization_loop_trace:
  assumes "BC = ''OBC'' \<or> BC = ''PBC''" "dimen (fst s) = shape (lattice (fst s))"
  shows "magnetization_loop k BC M s =
    (Inr (M + sum_list (map total_spin (sweep_trace k BC s))), last (s # sweep_trace k BC s))"
  using assms(2)
proof (induction k arbitrary: M s)
  case 0
  then show ?case by simp
next
  case (Suc k)
  obtain mc g where s: "s = (mc, g)" by (cases s)
  have ok: "fst (sweep BC s) = None"
    using sweep_ok [OF _ assms(1), of mc g] Suc.prems s by simp
  obtain s' where s': "sweep BC s = (None, s')"
    using ok by (cases "sweep BC s") simp
  have d: "dimen (fst s') = shape (lattice (fst s'))"
    using sweep_keeps_dimen [of mc BC g] Suc.prems s s' by simp
  show ?case
    using Suc.IH [OF d] s' by (simp add: total_spin_def add.assoc)
qed

text \<open>
  Claim C5. For every temperature and selector, \<open>magnetization_Ns\<close> with \<open>n < 1\<close>
  raises the sweep-count failure without a sweep: the array and the generator
  are as they were. With \<open>n >= 1\<close>, on an instance built from a two-dimensional
  array and with one of the two boundary conditions, it runs \<open>n\<close> sweeps one
  after the other, ends in the state after the \<open>n\<close>-th, and returns the sum of
  the total spins after each sweep divided by \<open>n\<close>.
\<close>

theorem magnetization_Ns_contract:
  "(n < 1 \<longrightarrow>
      fst (magnetization_Ns t n BC (mc, g)) = Inl InvalidSweepCount
      \<and> lattice (fst (snd (magnetization_Ns t n BC (mc, g)))) = lattice mc
      \<and> snd (snd (magnetization_Ns t n BC (mc, g))) = g)
   \<and> (1 \<le> n \<and> wf_MonteCarlo mc \<and> (BC = ''OBC'' \<or> BC = ''PBC'') \<longrightarrow>
      length (sweep_trace (nat n) BC (mc\<lparr>T := t\<rparr>, g)) = nat n
      \<and> magnetization_Ns t n BC (mc, g) =
          (Inr (sum_list (map total_spin (sweep_trace (nat n) BC (mc\<lparr>T := t\<rparr>, g))) / of_int n),
           last (sweep_trace (nat n) BC (mc\<lparr>T := t\<rparr>, g))))"
proof -
  have len: "length (sweep_trace k BC s) = k" for k s
    by (induction k arbitrary: s) simp_all
  have ne: "sweep_trace (nat n) BC s \<noteq> []" if "1 \<le> n" for s
    using that len [of "nat n" s] by (cases "sweep_trace (nat n) BC s") auto
  show ?thesis
    using magnetization_loop_trace [of BC "(mc\<lparr>T := t\<rparr>, g)" "nat n" 0]
    by (auto simp: magnetization_Ns_def wf_MonteCarlo_def len ne)
qed

theorem magnetization_Ns_contract_witness:
  "fst (magnetization_Ns (PyInt 0) 0 ''PBC''
      (init \<lparr>shape = (2, 2), data = [1, 1, - 1, 1]\<rparr> (JScalar (- 1)) 0 (PyInt 1) (PyInt 3),
       \<lparr>draws = const_draws (1 / 2), used = 0\<rparr>)) = Inl InvalidSweepCount
   \<and> magnetization_Ns (PyInt 0) 2 ''PBC''
      (init \<lparr>shape = (2, 2), data = [1, 1, - 1, 1]\<rparr> (JScalar (- 1)) 0 (PyInt 1) (PyInt 3),
       \<lparr>draws = const_draws (1 / 2), used = 0\<rparr>)
     = (Inr 4,
        (init \<lparr>shape = (2, 2), data = [1, 1, 1, 1]\<rparr> (JScalar (- 1)) 0 (PyInt 1) (PyInt 0),
         \<lparr>draws = const_draws (1 / 2), used = 7\<rparr>))"
  using magnetization_Ns_contract [of 0 "PyInt 0" "''PBC''"
      "init \<lparr>shape = (2, 2), data = [1, 1, - 1, 1]\<rparr> (JScalar (- 1)) 0 (PyInt 1) (PyInt 3)"
      "\<lparr>draws = const_draws (1 / 2), used = 0\<rparr>"]
    magnetization_Ns_contract [of 2 "PyInt 0" "''PBC''"
      "init \<lparr>shape = (2, 2), data = [1, 1, - 1, 1]\<rparr> (JScalar (- 1)) 0 (PyInt 1) (PyInt 3)"
      "\<lparr>draws = const_draws (1 / 2), used = 0\<rparr>"]
  by (simp add: ev wf_MonteCarlo_def wf_ndarray_def total_spin_def summary_def)

subsection \<open>Neighbours under the periodic boundary condition\<close>







subsection \<open>A sweep of an aligned lattice at zero temperature\<close>

text \<open>
  Claim C3, as stated: on a 4 by 4 lattice of \<open>+1\<close>, with no field, a positive
  coupling and \<open>T = 0\<close>, one sweep would flip no spin. It flips nine
  (\<open>PBC\<close>) and eleven (\<open>OBC\<close>) of them when \<open>J = 1\<close>: \<open>E_flip\<close> is
  \<open>-2 * J * s * (sum of the neighbours)\<close>, which is negative at a site whose
  neighbours are aligned with it.
\<close>

theorem sweep_aligned_counterexample:
  "sweep ''PBC'' (init (ones 4 4) (JScalar 1) 0 (PyInt 1) (PyInt 0), \<lparr>draws = const_draws (1 / 2), used = 0\<rparr>)
     = (None,
        (init \<lparr>shape = (4, 4),
               data = [- 1, - 1, - 1, 1, - 1, 1, - 1, 1, - 1, - 1, 1, - 1, 1, 1, - 1, 1]\<rparr>
           (JScalar 1) 0 (PyInt 1) (PyInt 0),
         \<lparr>draws = const_draws (1 / 2), used = 7\<rparr>))
   \<and> sweep ''OBC'' (init (ones 4 4) (JScalar 1) 0 (PyInt 1) (PyInt 0), \<lparr>draws = const_draws (1 / 2), used = 0\<rparr>)
     = (None,
        (init \<lparr>shape = (4, 4),
               data = [- 1, - 1, - 1, 1, - 1, 1, - 1, - 1, - 1, - 1, 1, - 1, 1, - 1, - 1, 1]\<rparr>
           (JScalar 1) 0 (PyInt 1) (PyInt 0),
         \<lparr>draws = const_draws (1 / 2), used = 5\<rparr>))
   \<and> lattice (fst (snd (sweep ''PBC''
        (init (ones 4 4) (JScalar 1) 0 (PyInt 1) (PyInt 0), \<lparr>draws = const_draws (1 / 2), used = 0\<rparr>))))
      \<noteq> ones 4 4
   \<and> lattice (fst (snd (sweep ''OBC''
        (init (ones 4 4) (JScalar 1) 0 (PyInt 1) (PyInt 0), \<lparr>draws = const_draws (1 / 2), used = 0\<rparr>))))
      \<noteq> ones 4 4"
  by (simp add: ev)

lemma getitem_ones: "getitem (ones r c) ij = Inr v \<Longrightarrow> v = 1"
proof -
  assume a: "getitem (ones r c) ij = Inr v"
  then obtain p where p: "flat_index (ones r c) ij = Inr p" and v: "v = data (ones r c) ! p"
    by (auto simp: getitem_def split: sum.splits)
  from flat_index_less [OF p] have "p < r * c" by (simp add: ones_def)
  with v show ?thesis by (simp add: ones_def)
qed

lemma neighbors_of_ones:
  assumes "lattice mc = ones r c"
  shows "left_neighbor bc mc n_i n_j = Inr v \<Longrightarrow> 0 \<le> v"
    and "right_neighbor bc mc n_i n_j = Inr v \<Longrightarrow> 0 \<le> v"
    and "up_neighbor bc mc n_i n_j = Inr v \<Longrightarrow> 0 \<le> v"
    and "down_neighbor bc mc n_i n_j = Inr v \<Longrightarrow> 0 \<le> v"
  using assms
  by (cases bc; auto simp: left_neighbor_def right_neighbor_def up_neighbor_def
      down_neighbor_def split: if_splits dest: getitem_ones)+

lemma spin_neighbor_of_ones:
  assumes "lattice mc = ones r c" "spin_neighbor bc mc n_i n_j = Inr (l, rt, u, d)"
  shows "0 \<le> l \<and> 0 \<le> rt \<and> 0 \<le> u \<and> 0 \<le> d"
  using assms(2) neighbors_of_ones [OF assms(1), of bc n_i n_j]
  by (auto simp: spin_neighbor_def split: sum.splits)

lemma E_flip_aligned:
  assumes "J mc = JScalar j" "j \<le> 0" "epsilon mc = 0"
    and "0 \<le> l" "0 \<le> r" "0 \<le> u" "0 \<le> d"
  shows "0 \<le> E_flip mc coord 1 (l, r, u, d)"
proof -
  have "j * l \<le> 0" "j * r \<le> 0" "j * u \<le> 0" "j * d \<le> 0"
    using assms by (simp_all add: mult_nonpos_nonneg)
  then show ?thesis using assms(1,3) by (simp add: E_flip_def)
qed

lemma flip_decider_reject:
  assumes "num_val (T mc) = 0"
    and "\<not> ((is_float (k_B mc) \<or> is_float (T mc)) \<and> sign_bit (k_B mc) \<noteq> sign_bit (T mc))"
    and "0 \<le> E" "0 < draws g (used g)"
  shows "flip_decider mc (np_scalar E) g = (Inr False, g\<lparr>used := Suc (used g)\<rparr>)"
proof -
  have z: "num_val (k_B mc) * num_val (T mc) = 0" using assms(1) by simp
  have s: "\<not> sign_bit (number_mul (k_B mc) (T mc))"
    using sign_bit_zero_product [OF z] assms(2) by simp
  show ?thesis
  proof (cases "E = 0")
    case True
    then show ?thesis using z
      by (simp add: flip_decider_def ranf_def true_divide_def np_true_divide_def np_scalar_def
          zero_product)
  next
    case False
    then have "0 < E" using assms(3) by simp
    then show ?thesis using z s assms(4)
      by (simp add: flip_decider_def ranf_def true_divide_def np_true_divide_def np_scalar_def
          zero_product not_le)
  qed
qed

lemma visit_site_aligned:
  assumes "lattice mc = ones r c" "dimen mc = (r, c)" "J mc = JScalar j" "j \<le> 0"
    "epsilon mc = 0" "num_val (T mc) = 0"
    "\<not> ((is_float (k_B mc) \<or> is_float (T mc)) \<and> sign_bit (k_B mc) \<noteq> sign_bit (T mc))"
    "\<forall>k. 0 < draws g k"
    and "0 \<le> n_i" "n_i < int r" "0 \<le> n_j" "n_j < int c"
  shows "visit_site bc n_i n_j (mc, g) = (None, (mc, g\<lparr>used := Suc (used g)\<rparr>))"
proof -
  have d: "dimen mc = shape (lattice mc)" using assms(1,2) by (simp add: ones_def)
  have rg: "0 \<le> n_i" "n_i < int (fst (dimen mc))" "0 \<le> n_j" "n_j < int (snd (dimen mc))"
    using assms by simp_all
  obtain l rt u dn where nb: "spin_neighbor bc mc n_i n_j = Inr (l, rt, u, dn)"
    using spin_neighbor_ok [OF d rg, of bc] by (metis prod_cases4)
  obtain v where v: "getitem (lattice mc) (n_i, n_j) = Inr v"
    using d rg by (simp add: getitem_valid valid_index_def)
  then have v1: "v = 1" using getitem_ones assms(1) by simp
  have "0 \<le> E_flip mc (n_i, n_j) 1 (l, rt, u, dn)"
    using spin_neighbor_of_ones [OF assms(1) nb] assms(3,4,5) by (intro E_flip_aligned) simp_all
  then have "flip_decider mc (np_scalar (E_flip mc (n_i, n_j) 1 (l, rt, u, dn))) g
      = (Inr False, g\<lparr>used := Suc (used g)\<rparr>)"
    using assms(8) by (intro flip_decider_reject [OF assms(6,7)]) simp_all
  then show ?thesis using nb v v1 by (simp add: visit_site_def)
qed

lemma sweep_row_aligned:
  assumes "lattice mc = ones r c" "dimen mc = (r, c)" "J mc = JScalar j" "j \<le> 0"
    "epsilon mc = 0" "num_val (T mc) = 0"
    "\<not> ((is_float (k_B mc) \<or> is_float (T mc)) \<and> sign_bit (k_B mc) \<noteq> sign_bit (T mc))"
    "\<forall>k. 0 < draws g k"
    and "0 \<le> n_i" "n_i < int r" "\<forall>n_j \<in> set js. 0 \<le> n_j \<and> n_j < int c"
  shows "sweep_row bc n_i js (mc, g) = (None, (mc, g\<lparr>used := used g + length js\<rparr>))"
  using assms(8,11)
proof (induction js arbitrary: g)
  case Nil
  then show ?case by simp
next
  case (Cons n_j js)
  have v: "visit_site bc n_i n_j (mc, g) = (None, (mc, g\<lparr>used := Suc (used g)\<rparr>))"
    using Cons.prems by (intro visit_site_aligned [OF assms(1-7) _ assms(9,10)]) simp_all
  have "sweep_row bc n_i js (mc, g\<lparr>used := Suc (used g)\<rparr>)
      = (None, (mc, g\<lparr>used := Suc (used g)\<rparr>\<lparr>used := used (g\<lparr>used := Suc (used g)\<rparr>) + length js\<rparr>))"
    using Cons.prems by (intro Cons.IH) simp_all
  then show ?case using v by simp
qed

lemma sweep_rows_aligned:
  assumes "lattice mc = ones r c" "dimen mc = (r, c)" "J mc = JScalar j" "j \<le> 0"
    "epsilon mc = 0" "num_val (T mc) = 0"
    "\<not> ((is_float (k_B mc) \<or> is_float (T mc)) \<and> sign_bit (k_B mc) \<noteq> sign_bit (T mc))"
    "\<forall>k. 0 < draws g k"
    and "\<forall>n_i \<in> set is. 0 \<le> n_i \<and> n_i < int r"
  shows "sweep_rows bc is (mc, g) = (None, (mc, g\<lparr>used := used g + length is * c\<rparr>))"
  using assms(8,9)
proof (induction "is" arbitrary: g)
  case Nil
  then show ?case by simp
next
  case (Cons n_i "is")
  have v: "sweep_row bc n_i (range_py c) (mc, g) = (None, (mc, g\<lparr>used := used g + length (range_py c)\<rparr>))"
    using Cons.prems
    by (intro sweep_row_aligned [OF assms(1-7)]) (auto dest: range_py_bounds)
  have l: "length (range_py c) = c" by (simp add: range_py_def)
  have "sweep_rows bc is (mc, g\<lparr>used := used g + c\<rparr>)
      = (None, (mc, g\<lparr>used := used g + c\<rparr>\<lparr>used := used (g\<lparr>used := used g + c\<rparr>) + length is * c\<rparr>))"
    using Cons.prems by (intro Cons.IH) simp_all
  then show ?case using v l assms(2) by (simp add: add.assoc add.commute)
qed

text \<open>
  Claim C3, amended. On a 4 by 4 lattice of \<open>+1\<close>, with no field, a negative
  coupling, \<open>T = 0\<close> with \<open>k_B * T\<close> not the negative float zero (that is, not
  with one of \<open>k_B\<close> and \<open>T\<close> a float and their sign bits different: \<open>k_B > 0\<close>
  and \<open>T\<close> the integer \<open>0\<close> or the float \<open>0.0\<close> will do), and with every sample of
  the generator above zero, one sweep under \<open>OBC\<close> or \<open>PBC\<close> raises nothing and
  flips no spin: the instance is as it was, and sixteen samples were taken.
  (At a positive flip energy the quotient is \<open>-inf\<close> and \<open>exp(-inf)\<close> is zero,
  so only a sample equal to zero is accepted; over the negative zero the
  quotient is \<open>inf\<close> and every sample is accepted.)
\<close>

theorem sweep_aligned_zero_temperature:
  assumes "j < 0" "\<forall>k. 0 < draws g k" "BC = ''OBC'' \<or> BC = ''PBC''"
    and "num_val t = 0"
    and "\<not> ((is_float kb \<or> is_float t) \<and> sign_bit kb \<noteq> sign_bit t)"
  shows "sweep BC (init (ones 4 4) (JScalar j) 0 kb t, g)
     = (None, (init (ones 4 4) (JScalar j) 0 kb t, g\<lparr>used := used g + 16\<rparr>))"
proof -
  let ?mc = "init (ones 4 4) (JScalar j) 0 kb t"
  have m: "lattice ?mc = ones 4 4" "dimen ?mc = (4, 4)" "J ?mc = JScalar j" "j \<le> 0"
    "epsilon ?mc = 0" "num_val (T ?mc) = 0"
    "\<not> ((is_float (k_B ?mc) \<or> is_float (T ?mc)) \<and> sign_bit (k_B ?mc) \<noteq> sign_bit (T ?mc))"
    using assms(1,4,5) by (simp_all add: init_def ones_def)
  have rg: "\<forall>n_i \<in> set (range_py 4). 0 \<le> n_i \<and> n_i < int 4"
    by (auto dest: range_py_bounds)
  have l: "length (range_py 4) = 4" by (simp add: range_py_def)
  have "sweep_rows bc (range_py 4) (?mc, g)
      = (None, (?mc, g\<lparr>used := used g + length (range_py 4) * 4\<rparr>))" for bc
    by (rule sweep_rows_aligned [OF m assms(2) rg])
  then show ?thesis using assms(3) m(2) l by (auto simp: sweep_def)
qed

theorem sweep_aligned_zero_temperature_witness:
  "sweep ''PBC'' (init (ones 4 4) (JScalar (- 1)) 0 (PyInt 1) (PyInt 0),
      \<lparr>draws = const_draws (1 / 2), used = 0\<rparr>)
     = (None, (init (ones 4 4) (JScalar (- 1)) 0 (PyInt 1) (PyInt 0),
        \<lparr>draws = const_draws (1 / 2), used = 16\<rparr>))
   \<and> sweep ''OBC'' (init (ones 4 4) (JScalar (- 1 / 2)) 0 (PyFloat (Val 1)) (PyFloat (Val 0)),
      \<lparr>draws = const_draws (1 / 2), used = 0\<rparr>)
     = (None, (init (ones 4 4) (JScalar (- 1 / 2)) 0 (PyFloat (Val 1)) (PyFloat (Val 0)),
        \<lparr>draws = const_draws (1 / 2), used = 16\<rparr>))"
  using sweep_aligned_zero_temperature [of "- 1" "\<lparr>draws = const_draws (1 / 2), used = 0\<rparr>"
      "''PBC''" "PyInt 0" "PyInt 1"]
    sweep_aligned_zero_temperature [of "- 1 / 2" "\<lparr>draws = const_draws (1 / 2), used = 0\<rparr>"
      "''OBC''" "PyFloat (Val 0)" "PyFloat (Val 1)"]
  by (simp add: const_draws_def)

end
